theory Spec2Isabelle
  imports Complex_Main
begin

section \<open>Time\<close>

text \<open>
  A naive \<open>datetime\<close> is the number of microseconds since 0001-01-01T00:00:00, the
  first instant Python's \<open>datetime\<close> can hold; comparison of datetimes is comparison of
  these numbers. A \<open>date\<close> is the number of whole days since 0001-01-01, which was a
  Monday, so \<open>date.weekday()\<close> is the day number modulo 7.
\<close>

type_synonym datetime = int
type_synonym date = int

definition us_per_minute :: int where
  "us_per_minute = 60000000"

definition us_per_day :: int where
  "us_per_day = 86400000000"

definition minutes :: "int \<Rightarrow> int" where
  "minutes n = n * us_per_minute"

definition timedelta_days :: "int \<Rightarrow> int" where
  "timedelta_days n = n * us_per_day"

section \<open>Data model (app/models.py)\<close>

datatype PostStatus = DRAFT | SCHEDULED | PUBLISHED | FAILED

record post =
  id_post :: int
  content :: string
  image_url :: "string option"
  status :: PostStatus
  scheduled_time :: "datetime option"
  published_time :: "datetime option"
  linkedin_post_id :: "string option"
  linkedin_share_url :: "string option"
  author_id :: int

record user =
  id_user :: int
  linkedin_access_token :: "string option"
  linkedin_refresh_token :: "string option"
  linkedin_token_expires_at :: "datetime option"
  linkedin_profile_id :: "string option"

text \<open>
  The integer columns of \<open>Analytics\<close> carry \<open>default=0\<close>, which SQLAlchemy applies when
  the row is inserted: on an object that was constructed and not yet flushed they read
  \<open>None\<close>.
\<close>

record analytics =
  post_id :: int
  user_id :: int
  impressions :: "int option"
  clicks :: "int option"
  likes :: "int option"
  comments :: "int option"
  shares :: "int option"
  engagement_rate :: "int option"
  last_synced :: "datetime option"

text \<open>Python truthiness of a nullable string column: \<open>None\<close> and \<open>""\<close> are false.\<close>

definition falsy :: "string option \<Rightarrow> bool" where
  "falsy s = (s = None \<or> s = Some [])"

section \<open>The worker's session (app/worker.py)\<close>

text \<open>
  The state is the session's view of the three tables, in storage order, and the trace
  of what the cycle did to the outside: calls of the LinkedIn client and commits.
  \<open>transaction_failed\<close> records that a statement of the session has raised a database
  error: the worker never calls \<open>rollback()\<close>, so from then on every statement of the
  session raises (the default database is PostgreSQL, config.py line 18).
\<close>

datatype event =
    RefreshCall int
  | PublishText int
  | PublishImage int
  | Committed int PostStatus
  | FetchCall int
  | SyncCommitted int

record session =
  post_rows :: "post list"
  user_rows :: "user list"
  analytics_rows :: "analytics list"
  trace :: "event list"
  transaction_failed :: bool

text \<open>What the collaborators answer. \<open>Raises\<close> stands for any exception of the call.\<close>

record token_data =
  td_access_token :: "string option"
  td_refresh_token :: "string option"
  td_expires_in :: "int option"

datatype refresh_outcome = RefreshRaises | RefreshReturns token_data

record publish_response =
  resp_id :: "string option"
  resp_shareUrl :: "string option"

datatype publish_outcome = PublishRaises | PublishReturns publish_response

text \<open>
  The environment of one publish cycle: the answer to the refresh call made for a user,
  the answer to the publish call made for a post, and two places where the database may
  fail once the publish call for a post has returned: the commit of line 106, and the
  bookkeeping that follows it (the reload of the post, the analytics lookup and the
  commit of lines 108-119). The database calls before the publish call are taken to
  succeed, and the rows read from the database to fit their columns.
\<close>

record publish_env =
  refresh_result :: "int \<Rightarrow> refresh_outcome"
  publish_result :: "int \<Rightarrow> publish_outcome"
  publish_commit_raises :: "int \<Rightarrow> bool"
  analytics_lookup_raises :: "int \<Rightarrow> bool"

definition log :: "event \<Rightarrow> session \<Rightarrow> session" where
  "log e s = s\<lparr>trace := trace s @ [e]\<rparr>"

definition update_post :: "int \<Rightarrow> (post \<Rightarrow> post) \<Rightarrow> session \<Rightarrow> session" where
  "update_post i f s = s\<lparr>post_rows := map (\<lambda>q. if id_post q = i then f q else q) (post_rows s)\<rparr>"

definition update_user :: "int \<Rightarrow> (user \<Rightarrow> user) \<Rightarrow> session \<Rightarrow> session" where
  "update_user i f s = s\<lparr>user_rows := map (\<lambda>v. if id_user v = i then f v else v) (user_rows s)\<rparr>"

text \<open>\<open>db.commit()\<close> inserts the pending rows, which is when the column defaults apply.\<close>

definition or_zero :: "int option \<Rightarrow> int option" where
  "or_zero v = (case v of None \<Rightarrow> Some 0 | Some x \<Rightarrow> Some x)"

definition flush_defaults :: "analytics \<Rightarrow> analytics" where
  "flush_defaults a = a\<lparr>impressions := or_zero (impressions a), clicks := or_zero (clicks a),
     likes := or_zero (likes a), comments := or_zero (comments a), shares := or_zero (shares a),
     engagement_rate := or_zero (engagement_rate a)\<rparr>"

definition db_commit :: "session \<Rightarrow> session" where
  "db_commit s = s\<lparr>analytics_rows := map flush_defaults (analytics_rows s)\<rparr>"

text \<open>A commit in the publish loop, recorded with the status it makes durable for the post.\<close>

definition commit_post :: "int \<Rightarrow> session \<Rightarrow> session" where
  "commit_post i s =
     (case find (\<lambda>q. id_post q = i) (post_rows s) of
        None \<Rightarrow> db_commit s
      | Some q \<Rightarrow> log (Committed i (status q)) (db_commit s))"

text \<open>\<open>post.status = models.PostStatus.FAILED; db.commit()\<close>\<close>

definition mark_failed :: "post \<Rightarrow> session \<Rightarrow> session" where
  "mark_failed p s = commit_post (id_post p) (update_post (id_post p) (\<lambda>q. q\<lparr>status := FAILED\<rparr>) s)"

subsection \<open>Due-item selection (worker.py lines 28-37)\<close>

text \<open>A comparison with a NULL \<open>scheduled_time\<close> is not true in SQL, so such a row is not selected.\<close>

definition due :: "datetime \<Rightarrow> post \<Rightarrow> bool" where
  "due now p =
     (status p = SCHEDULED \<and>
      (case scheduled_time p of
         None \<Rightarrow> False
       | Some t \<Rightarrow> t \<le> now + minutes 5 \<and> t > now - minutes 5))"

definition scheduled_posts :: "datetime \<Rightarrow> session \<Rightarrow> post list" where
  "scheduled_posts now s = filter (due now) (post_rows s)"

subsection \<open>Token refresh (worker.py lines 70-81 and 193-202)\<close>

text \<open>
  The body of the inner \<open>try\<close>, the same text in both loops: \<open>Inl\<close> is the state at
  the moment an exception leaves it (the call raised, a required key is missing, or the
  new expiry is outside the years 1 to 9999), \<open>Inr\<close> the state after its commit.
  \<open>commit\<close> is the \<open>db.commit()\<close> of the loop that calls it: \<open>db_commit\<close> in the publish
  loop, \<open>sync_commit\<close> in the sync loop.
\<close>

definition max_datetime :: int where
  "max_datetime = 3652059 * 86400000000"

definition refresh_token ::
  "(session \<Rightarrow> session) \<Rightarrow> (int \<Rightarrow> refresh_outcome) \<Rightarrow> datetime \<Rightarrow> user \<Rightarrow> session
     \<Rightarrow> session + session" where
  "refresh_token commit refresh now u s =
     (let s1 = log (RefreshCall (id_user u)) s in
      case refresh (id_user u) of
        RefreshRaises \<Rightarrow> Inl s1
      | RefreshReturns td \<Rightarrow>
          (case td_access_token td of
             None \<Rightarrow> Inl s1
           | Some a \<Rightarrow>
               let s2 = update_user (id_user u) (\<lambda>v. v\<lparr>linkedin_access_token := Some a\<rparr>) s1;
                   s3 = (case td_refresh_token td of
                           None \<Rightarrow> s2
                         | Some r \<Rightarrow> update_user (id_user u) (\<lambda>v. v\<lparr>linkedin_refresh_token := Some r\<rparr>) s2)
               in (case td_expires_in td of
                     None \<Rightarrow> Inl s3
                   | Some e \<Rightarrow>
                       let t = now + e * 1000000 in
                       if t < 0 \<or> max_datetime \<le> t then Inl s3
                       else Inr (commit
                              (update_user (id_user u) (\<lambda>v. v\<lparr>linkedin_token_expires_at := Some t\<rparr>) s3)))))"

subsection \<open>Publishing one post (worker.py lines 83-124)\<close>

text \<open>
  The result of an iteration is \<open>Inr\<close> the state with which the loop goes on, or \<open>Inl\<close>
  when an exception leaves the loop; then the state is what the database holds. That is
  the case after a database error. The handler of lines 121-124 assigns Failed to the
  object and commits on the session whose transaction has just failed, with no rollback
  in between: this commit raises as well, inside the handler, so nothing the handler
  assigned is stored, the exception reaches the handler of line 126 and the cycle ends.

  An exception of the publish call is not a database error: there the commit of the
  handler succeeds.
\<close>

definition publish :: "publish_env \<Rightarrow> datetime \<Rightarrow> post \<Rightarrow> user \<Rightarrow> session \<Rightarrow> session + session" where
  "publish env now p u s =
     (let s1 = log (if falsy (image_url p) then PublishText (id_post p) else PublishImage (id_post p)) s in
      case publish_result env (id_post p) of
        PublishRaises \<Rightarrow> Inr (mark_failed p s1)
      | PublishReturns r \<Rightarrow>
          if publish_commit_raises env (id_post p) then Inl s1
          else
            let s2 = commit_post (id_post p)
                       (update_post (id_post p)
                          (\<lambda>q. q\<lparr>status := PUBLISHED, published_time := Some now,
                                  linkedin_post_id := Some (case resp_id r of None \<Rightarrow> [] | Some x \<Rightarrow> x),
                                  linkedin_share_url := Some (case resp_shareUrl r of None \<Rightarrow> [] | Some x \<Rightarrow> x)\<rparr>) s1)
            in if analytics_lookup_raises env (id_post p) then Inl s2
               else (case find (\<lambda>a. post_id a = id_post p) (analytics_rows s2) of
                       Some a \<Rightarrow> Inr s2
                     | None \<Rightarrow>
                         Inr (commit_post (id_post p)
                           (s2\<lparr>analytics_rows := analytics_rows s2 @
                               [\<lparr>post_id = id_post p, user_id = id_user u, impressions = None, clicks = None,
                                 likes = None, comments = None, shares = None, engagement_rate = None,
                                 last_synced = Some now\<rparr>]\<rparr>))))"

definition token_expired :: "datetime \<Rightarrow> user \<Rightarrow> bool" where
  "token_expired now u =
     (case linkedin_token_expires_at u of None \<Rightarrow> False | Some t \<Rightarrow> t \<le> now)"

text \<open>One iteration of the loop over the selected posts (worker.py lines 46-124).\<close>

definition process_post :: "publish_env \<Rightarrow> datetime \<Rightarrow> post \<Rightarrow> session \<Rightarrow> session + session" where
  "process_post env now p s =
     (case find (\<lambda>u. id_user u = author_id p) (user_rows s) of
        None \<Rightarrow> Inr s
      | Some u \<Rightarrow>
          if falsy (linkedin_access_token u) then Inr (mark_failed p s)
          else if token_expired now u then
            (if falsy (linkedin_refresh_token u) then Inr (mark_failed p s)
             else (case refresh_token db_commit (refresh_result env) now u s of
                     Inl s' \<Rightarrow> Inr (mark_failed p s')
                   | Inr s' \<Rightarrow> publish env now p u s'))
          else publish env now p u s)"




section \<open>Analytics sync (worker.py lines 132-247)\<close>

subsection \<open>Selection (lines 143-162)\<close>

text \<open>\<open>column >= bound\<close> in SQL: not true when the column is NULL.\<close>

definition at_least :: "datetime option \<Rightarrow> datetime \<Rightarrow> bool" where
  "at_least c b = (case c of None \<Rightarrow> False | Some t \<Rightarrow> t \<ge> b)"

definition at_most :: "datetime option \<Rightarrow> datetime \<Rightarrow> bool" where
  "at_most c b = (case c of None \<Rightarrow> False | Some t \<Rightarrow> t \<le> b)"

text \<open>
  \<open>Post.analytics.has(Analytics.last_synced <= one_day_ago)\<close> is an EXISTS over the
  analytics rows of the post.
\<close>

definition sync_filter :: "datetime \<Rightarrow> analytics list \<Rightarrow> post \<Rightarrow> bool" where
  "sync_filter now rows p =
     (let one_day_ago = now - timedelta_days 1;
          one_week_ago = now - timedelta_days 7
      in status p = PUBLISHED \<and>
         linkedin_post_id p \<noteq> None \<and>
         (at_least (published_time p) one_day_ago \<or>
          (list_ex (\<lambda>a. post_id a = id_post p \<and> at_most (last_synced a) one_day_ago) rows \<and>
           at_least (published_time p) one_week_ago)))"

definition posts_to_sync :: "datetime \<Rightarrow> session \<Rightarrow> post list" where
  "posts_to_sync now s = take 20 (filter (sync_filter now (analytics_rows s)) (post_rows s))"

subsection \<open>Grouping by user (lines 170-175)\<close>

text \<open>The dictionary \<open>posts_by_user\<close>, kept in insertion order as Python iterates it.\<close>

fun add_to_group :: "post \<Rightarrow> (int \<times> post list) list \<Rightarrow> (int \<times> post list) list" where
  "add_to_group p [] = [(author_id p, [p])]"
| "add_to_group p ((k, ps) # g) =
     (if k = author_id p then (k, ps @ [p]) # g else (k, ps) # add_to_group p g)"

definition posts_by_user :: "post list \<Rightarrow> (int \<times> post list) list" where
  "posts_by_user ps = fold add_to_group ps []"

subsection \<open>Python floats (line 230)\<close>

datatype py_error =
  TypeError | ValueError | IndexError | ZeroDivisionError | OverflowError | DataError

text \<open>
  A Python float is an IEEE double. A finite double is \<open>m * 2 ^ k\<close> for integers \<open>m\<close> and
  \<open>k\<close> with \<open>\<bar>m\<bar> \<le> 2 ^ 53\<close> and \<open>k \<ge> -1074\<close>; the pair \<open>(m, k)\<close> stands for it. Every
  operation returns the double nearest to the exact result, a tie going to the even
  \<open>m\<close>.
\<close>

type_synonym double = "int \<times> int"


text \<open>The number of binary digits of a positive integer.\<close>

function bit_length :: "int \<Rightarrow> nat" where
  "bit_length n = (if n \<le> 0 then 0 else Suc (bit_length (n div 2)))"
  by pat_completeness auto
termination
  by (relation "measure nat") auto

declare bit_length.simps [simp del]

text \<open>\<open>n / d \<ge> 2 ^ k\<close>, for positive \<open>n\<close> and \<open>d\<close>.\<close>

definition at_least_pow2 :: "int \<Rightarrow> int \<Rightarrow> int \<Rightarrow> bool" where
  "at_least_pow2 n d k = (if k \<ge> 0 then d * 2 ^ nat k \<le> n else d \<le> n * 2 ^ nat (- k))"

text \<open>The exponent \<open>e\<close> with \<open>2 ^ e \<le> n / d < 2 ^ (e + 1)\<close>, for positive \<open>n\<close> and \<open>d\<close>.\<close>

definition floor_log2 :: "int \<Rightarrow> int \<Rightarrow> int" where
  "floor_log2 n d =
     (let e0 = int (bit_length n) - int (bit_length d)
      in if at_least_pow2 n d e0 then e0 else e0 - 1)"

text \<open>The integer nearest to \<open>n / d\<close>, a tie going to the even one (\<open>n \<ge> 0\<close>, \<open>d > 0\<close>).\<close>

definition round_half_even :: "int \<Rightarrow> int \<Rightarrow> int" where
  "round_half_even n d =
     (let f = n div d; r2 = 2 * (n mod d)
      in if r2 < d then f else if r2 > d then f + 1 else if even f then f else f + 1)"

text \<open>
  The double nearest to \<open>n / d\<close> for \<open>n \<ge> 0\<close> and \<open>d > 0\<close>: 53 significant bits, and the
  fixed spacing \<open>2 ^ -1074\<close> below \<open>2 ^ -1022\<close>.
\<close>

definition nearest_double :: "int \<Rightarrow> int \<Rightarrow> double" where
  "nearest_double n d =
     (if n = 0 then (0, 0)
      else let k = max (floor_log2 n d) (- 1022) - 52
           in (if k \<ge> 0 then round_half_even n (d * 2 ^ nat k)
               else round_half_even (n * 2 ^ nat (- k)) d, k))"

definition round_to_double :: "int \<Rightarrow> int \<Rightarrow> double" where
  "round_to_double n d =
     (if n \<ge> 0 then nearest_double n d
      else (case nearest_double (- n) d of (m, k) \<Rightarrow> (- m, k)))"

text \<open>The rounded value is \<open>2 ^ 1024\<close> or more: no finite double.\<close>

definition overflows :: "double \<Rightarrow> bool" where
  "overflows x =
     (case x of (m, k) \<Rightarrow>
        if k \<ge> 0 then 2 ^ 1024 \<le> \<bar>m\<bar> * 2 ^ nat k else 2 ^ 1024 * 2 ^ nat (- k) \<le> \<bar>m\<bar>)"

text \<open>
  \<open>a / b\<close> on two \<open>int\<close>s: the quotient correctly rounded, \<open>ZeroDivisionError\<close> for
  \<open>b = 0\<close>, \<open>OverflowError\<close> when the quotient is too large for a float.
\<close>

definition true_divide :: "int \<Rightarrow> int \<Rightarrow> py_error + double" where
  "true_divide a b =
     (if b = 0 then Inl ZeroDivisionError
      else let r = (if b > 0 then round_to_double a b else round_to_double (- a) (- b))
           in if overflows r then Inl OverflowError else Inr r)"

text \<open>
  \<open>x * c\<close> for a float \<open>x\<close> and an \<open>int\<close> \<open>c\<close> that converts to a float exactly; the
  result may be infinite, which \<open>overflows\<close> tells.
\<close>

definition float_times :: "double \<Rightarrow> int \<Rightarrow> double" where
  "float_times x c =
     (case x of (m, k) \<Rightarrow>
        if k \<ge> 0 then round_to_double (m * c * 2 ^ nat k) 1
        else round_to_double (m * c) (2 ^ nat (- k)))"

text \<open>\<open>int(x)\<close>: truncation towards zero, \<open>OverflowError\<close> on infinity.\<close>

definition int_of_float :: "double \<Rightarrow> py_error + int" where
  "int_of_float x =
     (if overflows x then Inl OverflowError
      else Inr (case x of (m, k) \<Rightarrow>
                  if k \<ge> 0 then m * 2 ^ nat k
                  else if m \<ge> 0 then m div 2 ^ nat (- k)
                  else - ((- m) div 2 ^ nat (- k))))"

text \<open>\<open>int((total_engagement / analytics.impressions) * 10000)\<close>\<close>

definition rate_expression :: "int \<Rightarrow> int \<Rightarrow> py_error + int" where
  "rate_expression total_engagement i =
     (case true_divide total_engagement i of
        Inl e \<Rightarrow> Inl e
      | Inr q \<Rightarrow> int_of_float (float_times q 10000))"

subsection \<open>One metrics record (lines 222-233)\<close>

record post_metrics =
  m_likes :: int
  m_comments :: int
  m_shares :: int

datatype fetch_outcome = FetchRaises | FetchReturns post_metrics

definition assign_counts :: "post_metrics \<Rightarrow> analytics \<Rightarrow> analytics" where
  "assign_counts d a = a\<lparr>likes := Some (m_likes d), comments := Some (m_comments d),
     shares := Some (m_shares d)\<rparr>"

text \<open>
  The \<open>Integer\<close> columns are 32 bits wide: a commit that writes a value outside the
  range raises (\<open>DataError\<close>, "integer out of range").
\<close>

definition fits_int32 :: "int \<Rightarrow> bool" where
  "fits_int32 v = (- 2147483648 \<le> v \<and> v \<le> 2147483647)"

definition fits_column :: "int option \<Rightarrow> bool" where
  "fits_column c = (case c of None \<Rightarrow> True | Some v \<Rightarrow> fits_int32 v)"

definition fits_columns :: "analytics \<Rightarrow> bool" where
  "fits_columns a =
     (fits_column (impressions a) \<and> fits_column (clicks a) \<and> fits_column (likes a) \<and>
      fits_column (comments a) \<and> fits_column (shares a) \<and> fits_column (engagement_rate a))"

text \<open>
  The assignments of lines 223-232 and what the commit of line 233 makes of this record.
  With \<open>impressions\<close> unset, \<open>None > 0\<close> raises \<open>TypeError\<close>; the rate is computed only
  under \<open>impressions > 0\<close>.
\<close>

definition sync_update :: "post_metrics \<Rightarrow> datetime \<Rightarrow> analytics \<Rightarrow> py_error + analytics" where
  "sync_update d now a =
     (let a1 = assign_counts d a;
          total_engagement = m_likes d + m_comments d + m_shares d
      in (case impressions a1 of
            None \<Rightarrow> Inl TypeError
          | Some i \<Rightarrow>
              (case (if i > 0
                     then (case rate_expression total_engagement i of
                             Inl e \<Rightarrow> Inl e
                           | Inr r \<Rightarrow> Inr (a1\<lparr>engagement_rate := Some r\<rparr>))
                     else Inr a1) of
                 Inl e \<Rightarrow> Inl e
               | Inr a2 \<Rightarrow>
                   if fits_columns a2 then Inr (a2\<lparr>last_synced := Some now\<rparr>)
                   else Inl DataError)))"

subsection \<open>The loops (lines 177-241)\<close>

record sync_env =
  sync_refresh_result :: "int \<Rightarrow> refresh_outcome"
  fetch_result :: "int \<Rightarrow> fetch_outcome"

text \<open>\<open>.first()\<close> hands out one row; the assignments change that row.\<close>

fun update_first :: "('a \<Rightarrow> bool) \<Rightarrow> ('a \<Rightarrow> 'a) \<Rightarrow> 'a list \<Rightarrow> 'a list" where
  "update_first P f [] = []"
| "update_first P f (x # xs) = (if P x then f x # xs else x # update_first P f xs)"

definition new_analytics :: "int \<Rightarrow> int \<Rightarrow> analytics" where
  "new_analytics pid uid = \<lparr>post_id = pid, user_id = uid, impressions = None, clicks = None,
     likes = None, comments = None, shares = None, engagement_rate = None, last_synced = None\<rparr>"

text \<open>
  \<open>db.commit()\<close> in the sync loop. It writes every pending change of the session, among
  them the counts an earlier iteration assigned before its \<open>TypeError\<close>, and raises when
  one of them does not fit its column; the transaction has then failed.
\<close>

definition sync_commit :: "session \<Rightarrow> session" where
  "sync_commit s =
     (if list_all fits_columns (analytics_rows s) then db_commit s
      else s\<lparr>transaction_failed := True\<rparr>)"

text \<open>
  One iteration of the inner loop. Every exception is caught and logged by the handler of
  line 237, which touches no database. The fetch comes first; on a failed transaction the
  lookup of line 214 raises. The counts assigned before a \<open>TypeError\<close> or an
  \<open>OverflowError\<close> stay on the object. When the commit raises, nothing of the iteration is
  stored and the transaction has failed.
\<close>

definition sync_post :: "sync_env \<Rightarrow> datetime \<Rightarrow> int \<Rightarrow> post \<Rightarrow> session \<Rightarrow> session" where
  "sync_post env now uid p s =
     (let s1 = log (FetchCall (id_post p)) s in
      case fetch_result env (id_post p) of
        FetchRaises \<Rightarrow> s1
      | FetchReturns d \<Rightarrow>
          if transaction_failed s1 then s1
          else
            let mine = (\<lambda>a. post_id a = id_post p);
                s2 = (case find mine (analytics_rows s1) of
                        Some a \<Rightarrow> s1
                      | None \<Rightarrow> s1\<lparr>analytics_rows := analytics_rows s1 @ [new_analytics (id_post p) uid]\<rparr>)
            in (case find mine (analytics_rows s2) of
                  None \<Rightarrow> s2
                | Some a \<Rightarrow>
                    (case sync_update d now a of
                       Inl e \<Rightarrow>
                         if e = DataError then s2\<lparr>transaction_failed := True\<rparr>
                         else s2\<lparr>analytics_rows := update_first mine (assign_counts d) (analytics_rows s2)\<rparr>
                     | Inr a' \<Rightarrow>
                         let s3 = sync_commit (s2\<lparr>analytics_rows := update_first mine (\<lambda>_. a') (analytics_rows s2)\<rparr>)
                         in if transaction_failed s3 then s3
                            else log (SyncCommitted (id_post p)) s3)))"

text \<open>
  One iteration of the outer loop: the posts of one user. On a failed transaction the
  lookup of line 181 raises, which the handler of line 240 catches.
\<close>

definition sync_user :: "sync_env \<Rightarrow> datetime \<Rightarrow> int \<times> post list \<Rightarrow> session \<Rightarrow> session" where
  "sync_user env now g s =
     (if transaction_failed s then s
      else
        (case find (\<lambda>u. id_user u = fst g) (user_rows s) of
           None \<Rightarrow> s
         | Some u \<Rightarrow>
             if falsy (linkedin_access_token u) then s
             else if token_expired now u then
               (if falsy (linkedin_refresh_token u) then s
                else (case refresh_token sync_commit (sync_refresh_result env) now u s of
                        Inl s' \<Rightarrow> s'
                      | Inr s' \<Rightarrow>
                          if transaction_failed s' then s'
                          else fold (sync_post env now (fst g)) (snd g) s'))
             else fold (sync_post env now (fst g)) (snd g) s))"

text \<open>A cycle; on a failed transaction the query of line 148 raises.\<close>

definition sync_post_analytics :: "sync_env \<Rightarrow> datetime \<Rightarrow> session \<Rightarrow> session" where
  "sync_post_analytics env now s =
     (if transaction_failed s then s
      else fold (sync_user env now) (posts_by_user (posts_to_sync now s)) s)"

section \<open>Bulk scheduling (app/crud.py lines 384-517)\<close>

subsection \<open>The request\<close>

text \<open>
  \<open>schedule_config\<close> is a JSON object. Its entries are modelled at the types the code
  reads them at, with what the library parsers make of the strings:
  \<^item> a date entry is absent, or a string \<open>datetime.fromisoformat\<close> rejects, or a string it
    reads as a naive datetime;
  \<^item> a time slot such as \<open>"09:30"\<close> is the list of its parts after \<open>split(":")\<close>, each
    part with the value \<open>int()\<close> gives it (\<open>[Some 9, Some 30]\<close>), or \<open>None\<close> where
    \<open>int()\<close> raises \<open>ValueError\<close>;
  \<^item> \<open>None\<close> for a list or a number means the key is absent and \<open>.get\<close> supplies its
    default.

  Entries of another JSON type than the one the code reads (a number where a list is
  expected, a date with a UTC offset) are outside the model.
\<close>

datatype date_field = Absent | Malformed | IsoDate datetime

type_synonym time_slot = "int option list"

record schedule_config =
  cfg_start_date :: date_field
  cfg_end_date :: date_field
  cfg_time_slots :: "time_slot list option"
  cfg_days :: "string list option"
  cfg_weeks_ahead :: "int option"
  cfg_days_ahead :: "int option"

type_synonym schedule_times = "(int \<times> datetime) list"

subsection \<open>Library calls\<close>

definition fromisoformat :: "date_field \<Rightarrow> py_error + datetime" where
  "fromisoformat f = (case f of Absent \<Rightarrow> Inl TypeError | Malformed \<Rightarrow> Inl ValueError | IsoDate t \<Rightarrow> Inr t)"

text \<open>\<open>time_parts = slot.split(":"); hour, minute = int(time_parts[0]), int(time_parts[1])\<close>\<close>

definition parse_slot :: "time_slot \<Rightarrow> py_error + (int \<times> int)" where
  "parse_slot time_parts =
     (case time_parts of
        [] \<Rightarrow> Inl IndexError
      | h # rest \<Rightarrow>
          (case h of
             None \<Rightarrow> Inl ValueError
           | Some hour \<Rightarrow>
               (case rest of
                  [] \<Rightarrow> Inl IndexError
                | m # _ \<Rightarrow>
                    (case m of
                       None \<Rightarrow> Inl ValueError
                     | Some minute \<Rightarrow> Inr (hour, minute)))))"

definition us_per_hour :: int where
  "us_per_hour = 3600000000"

text \<open>\<open>t.replace(hour=hour, minute=minute)\<close> keeps the day, the second and the microsecond.\<close>

definition replace_hm :: "datetime \<Rightarrow> int \<Rightarrow> int \<Rightarrow> py_error + datetime" where
  "replace_hm t hour minute =
     (if 0 \<le> hour \<and> hour \<le> 23 \<and> 0 \<le> minute \<and> minute \<le> 59
      then Inr ((t div us_per_day) * us_per_day + hour * us_per_hour + minute * us_per_minute
                + t mod us_per_minute)
      else Inl ValueError)"

text \<open>\<open>t + timedelta(days=n)\<close> on a datetime and on a date.\<close>

definition add_days :: "datetime \<Rightarrow> int \<Rightarrow> py_error + datetime" where
  "add_days t n =
     (let r = t + timedelta_days n
      in if \<bar>n\<bar> > 999999999 \<or> r < 0 \<or> max_datetime \<le> r then Inl OverflowError else Inr r)"

definition max_date :: int where
  "max_date = 3652059"

definition add_date :: "date \<Rightarrow> int \<Rightarrow> py_error + date" where
  "add_date d n =
     (let r = d + n
      in if \<bar>n\<bar> > 999999999 \<or> r < 0 \<or> max_date \<le> r then Inl OverflowError else Inr r)"

definition weekday :: "date \<Rightarrow> int" where
  "weekday d = d mod 7"

definition cons_ok :: "'a \<Rightarrow> py_error + 'a list \<Rightarrow> py_error + 'a list" where
  "cons_ok x r = (case r of Inl e \<Rightarrow> Inl e | Inr xs \<Rightarrow> Inr (x # xs))"

subsection \<open>\<open>evenly_spaced\<close> (lines 398-443)\<close>

text \<open>The loop of lines 413-429 over the posts still to be placed.\<close>

fun assign_slots :: "time_slot list \<Rightarrow> datetime \<Rightarrow> datetime \<Rightarrow> nat \<Rightarrow> post list \<Rightarrow> py_error + schedule_times" where
  "assign_slots time_slots end_date current_date time_slot_index [] = Inr []"
| "assign_slots time_slots end_date current_date time_slot_index (post # rest) =
     (if current_date > end_date then Inr []
      else if time_slot_index \<ge> length time_slots then Inl IndexError
      else (case parse_slot (time_slots ! time_slot_index) of
              Inl e \<Rightarrow> Inl e
            | Inr (hour, minute) \<Rightarrow>
                (case replace_hm current_date hour minute of
                   Inl e \<Rightarrow> Inl e
                 | Inr slot_time \<Rightarrow>
                     (if time_slot_index + 1 \<ge> length time_slots then
                        (case add_days current_date 1 of
                           Inl e \<Rightarrow> Inl e
                         | Inr next_date \<Rightarrow>
                             cons_ok (id_post post, slot_time)
                               (assign_slots time_slots end_date next_date 0 rest))
                      else cons_ok (id_post post, slot_time)
                             (assign_slots time_slots end_date current_date (time_slot_index + 1) rest)))))"

text \<open>
  The loop of lines 433-443. \<open>day_offset i\<close> stands for \<open>int(i * days_per_post)\<close>, a product
  of IEEE doubles truncated, and is a parameter.
\<close>

fun spread_posts :: "(nat \<Rightarrow> int) \<Rightarrow> time_slot list \<Rightarrow> datetime \<Rightarrow> nat \<Rightarrow> post list \<Rightarrow> py_error + schedule_times" where
  "spread_posts day_offset time_slots start_date i [] = Inr []"
| "spread_posts day_offset time_slots start_date i (post # rest) =
     (case add_days start_date (day_offset i) of
        Inl e \<Rightarrow> Inl e
      | Inr current_date \<Rightarrow>
          (case time_slots of
             [] \<Rightarrow> Inl IndexError
           | slot # _ \<Rightarrow>
               (case parse_slot slot of
                  Inl e \<Rightarrow> Inl e
                | Inr (hour, minute) \<Rightarrow>
                    (case replace_hm current_date hour minute of
                       Inl e \<Rightarrow> Inl e
                     | Inr slot_time \<Rightarrow>
                         cons_ok (id_post post, slot_time)
                           (spread_posts day_offset time_slots start_date (Suc i) rest)))))"

definition default_time_slots :: "time_slot list" where
  "default_time_slots = [[Some 9, Some 0]]"

text \<open>
  \<open>posts_per_day <= len(time_slots)\<close> compares the double \<open>len(posts) / days_between\<close>
  with an integer. For a positive \<open>days_between\<close> this is \<open>len(posts) \<le> len(time_slots) *
  days_between\<close> (exactly so below $2^{53}$ posts); for a negative one the quotient is not
  positive and the comparison holds; for zero the division raises.
\<close>

definition evenly_spaced :: "(int \<Rightarrow> nat \<Rightarrow> nat \<Rightarrow> int) \<Rightarrow> schedule_config \<Rightarrow> post list \<Rightarrow> py_error + schedule_times" where
  "evenly_spaced day_offset cfg posts =
     (case fromisoformat (cfg_start_date cfg) of
        Inl e \<Rightarrow> Inl e
      | Inr start_date \<Rightarrow>
          (case fromisoformat (cfg_end_date cfg) of
             Inl e \<Rightarrow> Inl e
           | Inr end_date \<Rightarrow>
               (let time_slots = (case cfg_time_slots cfg of None \<Rightarrow> default_time_slots | Some ts \<Rightarrow> ts);
                    days_between = (end_date - start_date) div us_per_day + 1
                in if days_between = 0 then Inl ZeroDivisionError
                   else if days_between < 0 \<or>
                           int (length posts) \<le> int (length time_slots) * days_between
                   then assign_slots time_slots end_date start_date 0 posts
                   else spread_posts (day_offset days_between (length posts)) time_slots start_date 0 posts)))"

subsection \<open>\<open>specific_days\<close> (lines 445-479)\<close>

definition day_map :: "string \<Rightarrow> int option" where
  "day_map = map_of [(''Monday'', 0), (''Tuesday'', 1), (''Wednesday'', 2), (''Thursday'', 3),
     (''Friday'', 4), (''Saturday'', 5), (''Sunday'', 6)]"

text \<open>The inner loop of lines 467-473: the slots of one day that lie after \<open>now\<close>.\<close>

fun day_candidates :: "time_slot list \<Rightarrow> datetime \<Rightarrow> date \<Rightarrow> py_error + datetime list" where
  "day_candidates [] now current_date = Inr []"
| "day_candidates (time_slot # rest) now current_date =
     (case parse_slot time_slot of
        Inl e \<Rightarrow> Inl e
      | Inr (hour, minute) \<Rightarrow>
          (case replace_hm (current_date * us_per_day) hour minute of
             Inl e \<Rightarrow> Inl e
           | Inr slot_time \<Rightarrow>
               (case day_candidates rest now current_date of
                  Inl e \<Rightarrow> Inl e
                | Inr others \<Rightarrow> Inr (if slot_time > now then slot_time # others else others))))"

text \<open>The \<open>while\<close> loop of lines 465-474.\<close>

function possible_dates :: "int list \<Rightarrow> time_slot list \<Rightarrow> datetime \<Rightarrow> date \<Rightarrow> date \<Rightarrow> py_error + datetime list" where
  "possible_dates weekdays time_slots now current_date end_date =
     (if current_date \<le> end_date then
        (case (if weekday current_date \<in> set weekdays
               then day_candidates time_slots now current_date else Inr []) of
           Inl e \<Rightarrow> Inl e
         | Inr today \<Rightarrow>
             (if max_date \<le> current_date + 1 then Inl OverflowError
              else (case possible_dates weekdays time_slots now (current_date + 1) end_date of
                      Inl e \<Rightarrow> Inl e
                    | Inr later \<Rightarrow> Inr (today @ later))))
      else Inr [])"
  by pat_completeness auto
termination
  by (relation "measure (\<lambda>(weekdays, time_slots, now, current_date, end_date).
        nat (end_date + 1 - current_date))") auto

declare possible_dates.simps [simp del]

definition specific_days :: "schedule_config \<Rightarrow> datetime \<Rightarrow> post list \<Rightarrow> py_error + schedule_times" where
  "specific_days cfg now posts =
     (let days = (case cfg_days cfg of None \<Rightarrow> [''Monday''] | Some ds \<Rightarrow> ds);
          time_slots = (case cfg_time_slots cfg of None \<Rightarrow> default_time_slots | Some ts \<Rightarrow> ts);
          weeks_ahead = (case cfg_weeks_ahead cfg of None \<Rightarrow> 4 | Some w \<Rightarrow> w);
          weekdays = List.map_filter day_map days;
          current_date = now div us_per_day
      in (case add_date current_date (7 * weeks_ahead) of
            Inl e \<Rightarrow> Inl e
          | Inr end_date \<Rightarrow>
              (case possible_dates weekdays time_slots now current_date end_date of
                 Inl e \<Rightarrow> Inl e
               | Inr dates \<Rightarrow> Inr (zip (map id_post posts) dates))))"

subsection \<open>\<open>optimal_times\<close> (lines 481-505)\<close>

definition optimal_hours :: "int list" where
  "optimal_hours = [9, 12, 17, 20]"

text \<open>
  The inner loop of lines 492-501 over the hours of one day; the posts from
  \<open>post_index\<close> on are the list of posts still to be placed, which it returns with the
  assignments it made.
\<close>

fun optimal_day :: "int list \<Rightarrow> datetime \<Rightarrow> date \<Rightarrow> post list \<Rightarrow> schedule_times \<times> post list" where
  "optimal_day [] now current_date todo = ([], todo)"
| "optimal_day (hour # hours) now current_date [] = ([], [])"
| "optimal_day (hour # hours) now current_date (post # rest) =
     (let slot_time = current_date * us_per_day + hour * us_per_hour
      in if slot_time > now
         then (case optimal_day hours now current_date rest of
                 (assigned, todo) \<Rightarrow> ((id_post post, slot_time) # assigned, todo))
         else optimal_day hours now current_date (post # rest))"

text \<open>The outer loop of lines 491-505, \<open>n\<close> days of \<open>range(days_ahead)\<close> still to go.\<close>

fun optimal_days :: "nat \<Rightarrow> datetime \<Rightarrow> date \<Rightarrow> post list \<Rightarrow> py_error + schedule_times" where
  "optimal_days 0 now current_date todo = Inr []"
| "optimal_days (Suc n) now current_date todo =
     (case optimal_day optimal_hours now current_date todo of
        (assigned, todo') \<Rightarrow>
          (case add_date current_date 1 of
             Inl e \<Rightarrow> Inl e
           | Inr next_date \<Rightarrow>
               if todo' = [] then Inr assigned
               else (case optimal_days n now next_date todo' of
                       Inl e \<Rightarrow> Inl e
                     | Inr later \<Rightarrow> Inr (assigned @ later))))"

definition optimal_times :: "schedule_config \<Rightarrow> datetime \<Rightarrow> post list \<Rightarrow> py_error + schedule_times" where
  "optimal_times cfg now posts =
     (let days_ahead = (case cfg_days_ahead cfg of None \<Rightarrow> 14 | Some d \<Rightarrow> d)
      in optimal_days (nat days_ahead) now (now div us_per_day) posts)"

subsection \<open>\<open>bulk_schedule_posts\<close>\<close>

text \<open>
  The table of posts is a list in storage order and the query of lines 386-389 keeps that
  order. The rows it returns are the rows of the table: the loop of lines 508-512 writes to
  the first of them that carries the identifier.
\<close>

definition schedule_post :: "(post \<Rightarrow> bool) \<Rightarrow> int \<times> datetime \<Rightarrow> post list \<Rightarrow> post list" where
  "schedule_post selected a db =
     update_first (\<lambda>p. selected p \<and> id_post p = fst a)
       (\<lambda>p. p\<lparr>scheduled_time := Some (snd a), status := SCHEDULED\<rparr>) db"

text \<open>The \<open>if\<close>/\<open>elif\<close> chain of lines 398-505; no branch for any other tag.\<close>

definition calculate_schedule_times ::
  "(int \<Rightarrow> nat \<Rightarrow> nat \<Rightarrow> int) \<Rightarrow> datetime \<Rightarrow> string \<Rightarrow> schedule_config \<Rightarrow> post list
     \<Rightarrow> py_error + schedule_times" where
  "calculate_schedule_times day_offset now schedule_type cfg posts =
     (if schedule_type = ''evenly_spaced'' then evenly_spaced day_offset cfg posts
      else if schedule_type = ''specific_days'' then specific_days cfg now posts
      else if schedule_type = ''optimal_times'' then optimal_times cfg now posts
      else Inr [])"

text \<open>
  The result is the exception raised, or the table after the call with the value
  returned: \<open>None\<close>, or the schedule preview.
\<close>

definition bulk_schedule_posts ::
  "(int \<Rightarrow> nat \<Rightarrow> nat \<Rightarrow> int) \<Rightarrow> datetime \<Rightarrow> post list \<Rightarrow> int list \<Rightarrow> string \<Rightarrow> schedule_config \<Rightarrow> int
     \<Rightarrow> py_error + (post list \<times> schedule_times option)" where
  "bulk_schedule_posts day_offset now db post_ids schedule_type cfg uid =
     (let selected = (\<lambda>p. id_post p \<in> set post_ids \<and> author_id p = uid);
          posts = filter selected db
      in if posts = [] \<or> length posts \<noteq> length post_ids then Inr (db, None)
         else (case calculate_schedule_times day_offset now schedule_type cfg posts of
                 Inl e \<Rightarrow> Inl e
               | Inr schedule_times \<Rightarrow>
                   Inr (fold (schedule_post selected) schedule_times db, Some schedule_times)))"

subsection \<open>The endpoint (app/routers/bulk_operations.py lines 23-43)\<close>

datatype response = HTTP_200 schedule_times | HTTP_400 | Unhandled py_error

text \<open>An exception of the call is not caught here; it leaves the table as it was.\<close>

definition bulk_schedule_endpoint ::
  "(int \<Rightarrow> nat \<Rightarrow> nat \<Rightarrow> int) \<Rightarrow> datetime \<Rightarrow> post list \<Rightarrow> int list \<Rightarrow> string \<Rightarrow> schedule_config \<Rightarrow> int
     \<Rightarrow> post list \<times> response" where
  "bulk_schedule_endpoint day_offset now db post_ids schedule_type cfg uid =
     (case bulk_schedule_posts day_offset now db post_ids schedule_type cfg uid of
        Inl e \<Rightarrow> (db, Unhandled e)
      | Inr (db', None) \<Rightarrow> (db', HTTP_400)
      | Inr (db', Some schedule) \<Rightarrow> (db', HTTP_200 schedule))"

section \<open>Observations on a run\<close>

definition is_publish_call :: "event \<Rightarrow> bool" where
  "is_publish_call e = (case e of PublishText _ \<Rightarrow> True | PublishImage _ \<Rightarrow> True | _ \<Rightarrow> False)"


text \<open>
  The refresh call fails: it raises, or its answer lacks one of the two keys the worker
  reads with \<open>token_data[...]\<close>.
\<close>

definition refresh_fails :: "(int \<Rightarrow> refresh_outcome) \<Rightarrow> user \<Rightarrow> bool" where
  "refresh_fails refresh u =
     (case refresh (id_user u) of
        RefreshRaises \<Rightarrow> True
      | RefreshReturns td \<Rightarrow> td_access_token td = None \<or> td_expires_in td = None)"

subsection \<open>Sample data\<close>

definition sample_post :: post where
  "sample_post = \<lparr>id_post = 1, content = ''hello'', image_url = None, status = SCHEDULED,
     scheduled_time = Some 1000000000, published_time = None, linkedin_post_id = None,
     linkedin_share_url = None, author_id = 7\<rparr>"

definition sample_user :: user where
  "sample_user = \<lparr>id_user = 7, linkedin_access_token = Some ''tok'', linkedin_refresh_token = None,
     linkedin_token_expires_at = None, linkedin_profile_id = Some ''me''\<rparr>"

text \<open>The same user with a token that expired before the cycle, and no refresh token.\<close>

definition expired_user :: user where
  "expired_user = sample_user\<lparr>linkedin_token_expires_at := Some 500000000\<rparr>"

definition sample_session :: session where
  "sample_session = \<lparr>post_rows = [sample_post], user_rows = [sample_user], analytics_rows = [],
     trace = [], transaction_failed = False\<rparr>"


definition expired_session :: session where
  "expired_session = sample_session\<lparr>user_rows := [expired_user]\<rparr>"

text \<open>
  LinkedIn accepts every publication; the commit of line 106 succeeds and the database
  fails at the analytics lookup that follows.
\<close>

definition lookup_fault_env :: publish_env where
  "lookup_fault_env = \<lparr>refresh_result = (\<lambda>_. RefreshRaises),
     publish_result = (\<lambda>_. PublishReturns \<lparr>resp_id = Some ''urn:1'', resp_shareUrl = None\<rparr>),
     publish_commit_raises = (\<lambda>_. False),
     analytics_lookup_raises = (\<lambda>_. True)\<rparr>"

subsection \<open>Counting the items a sync cycle handles\<close>

definition is_fetch_call :: "event \<Rightarrow> bool" where
  "is_fetch_call e = (case e of FetchCall _ \<Rightarrow> True | _ \<Rightarrow> False)"

definition fetch_calls :: "session \<Rightarrow> nat" where
  "fetch_calls s = length (filter is_fetch_call (trace s))"

definition group_sizes :: "(int \<times> post list) list \<Rightarrow> nat" where
  "group_sizes g = sum_list (map (\<lambda>kv. length (snd kv)) g)"

subsection \<open>The sync selection as the specification words it\<close>

text \<open>
  Published with an external identifier, and either published within the last 24 hours,
  or published within the last 7 days with a metrics record whose \<open>lastSynced\<close> is at
  least 24 hours old or unset, a post without metrics record counting as unset.
\<close>

definition spec_needs_sync :: "datetime \<Rightarrow> analytics list \<Rightarrow> post \<Rightarrow> bool" where
  "spec_needs_sync now rows p =
     (status p = PUBLISHED \<and> linkedin_post_id p \<noteq> None \<and>
      (at_least (published_time p) (now - timedelta_days 1) \<or>
       (at_least (published_time p) (now - timedelta_days 7) \<and>
        (case find (\<lambda>a. post_id a = id_post p) rows of
           None \<Rightarrow> True
         | Some a \<Rightarrow>
             (case last_synced a of None \<Rightarrow> True | Some t \<Rightarrow> t \<le> now - timedelta_days 1)))))"

text \<open>
  At day 10, a post published on day 8: without a metrics record, and with a record
  synced on day 8.
\<close>

definition two_days_old_post :: post where
  "two_days_old_post = \<lparr>id_post = 2, content = ''news'', image_url = None, status = PUBLISHED,
     scheduled_time = Some 691200000000, published_time = Some 691200000000,
     linkedin_post_id = Some ''urn:2'', linkedin_share_url = Some [], author_id = 7\<rparr>"

definition no_record_session :: session where
  "no_record_session = \<lparr>post_rows = [two_days_old_post], user_rows = [sample_user],
     analytics_rows = [], trace = [], transaction_failed = False\<rparr>"

definition synced_row :: analytics where
  "synced_row = \<lparr>post_id = 2, user_id = 7, impressions = Some 0, clicks = Some 0,
     likes = Some 0, comments = Some 0, shares = Some 0, engagement_rate = Some 0,
     last_synced = Some 691200000000\<rparr>"

definition synced_once_session :: session where
  "synced_once_session = no_record_session\<lparr>analytics_rows := [synced_row]\<rparr>"

subsection \<open>Sample metrics\<close>





subsection \<open>Sample requests\<close>

definition draft_post :: "int \<Rightarrow> int \<Rightarrow> post" where
  "draft_post i a = \<lparr>id_post = i, content = ''text'', image_url = None, status = DRAFT,
     scheduled_time = None, published_time = None, linkedin_post_id = None,
     linkedin_share_url = None, author_id = a\<rparr>"

definition empty_config :: schedule_config where
  "empty_config = \<lparr>cfg_start_date = Absent, cfg_end_date = Absent, cfg_time_slots = None,
     cfg_days = None, cfg_weeks_ahead = None, cfg_days_ahead = None\<rparr>"

text \<open>
  A stand-in for \<open>int(i * days_per_post)\<close> in sample runs: the exact product, floored. The
  runs below do not reach the branch that uses it.
\<close>

definition exact_day_offset :: "int \<Rightarrow> nat \<Rightarrow> nat \<Rightarrow> int" where
  "exact_day_offset days_between n i = (int i * days_between) div int n"

text \<open>2024-01-01 (day 738885, a Monday) at 10:00.\<close>

definition monday_10am :: datetime where
  "monday_10am = 63839700000000000"

definition two_drafts :: "post list" where
  "two_drafts = [draft_post 1 7, draft_post 2 7]"

subsection \<open>The day names \<open>day_map\<close> knows\<close>

definition weekday_names :: "string list" where
  "weekday_names = [''Monday'', ''Tuesday'', ''Wednesday'', ''Thursday'', ''Friday'', ''Saturday'',
     ''Sunday'']"

section \<open>Properties of the publish worker\<close>

lemma post_rows_log [simp]: "post_rows (log e s) = post_rows s"
  by (simp add: log_def)

lemma post_rows_db_commit [simp]: "post_rows (db_commit s) = post_rows s"
  by (simp add: db_commit_def)

lemma post_rows_commit_post [simp]: "post_rows (commit_post i s) = post_rows s"
  by (simp add: commit_post_def split: option.splits)

lemma post_rows_update_user [simp]: "post_rows (update_user i f s) = post_rows s"
  by (simp add: update_user_def)

lemma trace_db_commit [simp]: "trace (db_commit s) = trace s"
  by (simp add: db_commit_def)

lemma trace_update_user [simp]: "trace (update_user i f s) = trace s"
  by (simp add: update_user_def)

lemma trace_update_post [simp]: "trace (update_post i f s) = trace s"
  by (simp add: update_post_def)

lemma trace_log [simp]: "trace (log e s) = trace s @ [e]"
  by (simp add: log_def)

lemma publish_calls_commit_post [simp]:
  "filter is_publish_call (trace (commit_post i s)) = filter is_publish_call (trace s)"
  by (simp add: commit_post_def is_publish_call_def split: option.splits)

lemma post_rows_mark_failed:
  "post_rows (mark_failed p s) =
     map (\<lambda>q. if id_post q = id_post p then q\<lparr>status := FAILED\<rparr> else q) (post_rows s)"
  by (simp add: mark_failed_def update_post_def)

lemma publish_calls_mark_failed [simp]:
  "filter is_publish_call (trace (mark_failed p s)) = filter is_publish_call (trace s)"
  by (simp add: mark_failed_def)

lemma refresh_token_Inl:
  "refresh_token commit refresh now u s = Inl s' \<Longrightarrow>
     post_rows s' = post_rows s \<and>
     filter is_publish_call (trace s') = filter is_publish_call (trace s)"
  by (auto simp: refresh_token_def Let_def is_publish_call_def
      split: refresh_outcome.splits option.splits if_splits)

lemma refresh_fails_Inl:
  "refresh_fails refresh u \<Longrightarrow> \<exists>s'. refresh_token commit refresh now u s = Inl s'"
  by (auto simp: refresh_token_def refresh_fails_def Let_def
      split: refresh_outcome.splits option.splits)

text \<open>
  Claim C6. In a publish cycle at time \<open>now\<close> a post is selected exactly when it is a row
  of the table, its status is Scheduled and its scheduled time \<open>t\<close> is set and lies in the
  half-open window: \<open>now - 5 min < t\<close> and \<open>t \<le> now + 5 min\<close> (five minutes are
  300000000 microseconds).
\<close>

theorem due_window_selection:
  "p \<in> set (scheduled_posts now s) \<longleftrightarrow>
     p \<in> set (post_rows s) \<and> status p = SCHEDULED \<and>
     (\<exists>t. scheduled_time p = Some t \<and> now - 300000000 < t \<and> t \<le> now + 300000000)"
  by (auto simp: scheduled_posts_def due_def minutes_def us_per_minute_def split: option.splits)

text \<open>
  Claim C5. When the worker handles a selected post whose author \<open>u\<close> is found, and \<open>u\<close>
  has no access token, or the token is expired and there is no refresh token, or the
  token is expired and the refresh call fails, then the iteration completes, it changes
  the table of posts in one way only, setting the status of this post to Failed, and it
  makes no publish call.
\<close>

theorem token_failure_marks_failed:
  assumes "find (\<lambda>u. id_user u = author_id p) (user_rows s) = Some u"
    and "falsy (linkedin_access_token u) \<or>
         (token_expired now u \<and>
            (falsy (linkedin_refresh_token u) \<or> refresh_fails (refresh_result env) u))"
  shows "\<exists>s'. process_post env now p s = Inr s' \<and>
           post_rows s' =
             map (\<lambda>q. if id_post q = id_post p then q\<lparr>status := FAILED\<rparr> else q) (post_rows s) \<and>
           filter is_publish_call (trace s') = filter is_publish_call (trace s)"
proof (cases "falsy (linkedin_access_token u)")
  case True
  with assms(1) show ?thesis
    by (simp add: process_post_def post_rows_mark_failed)
next
  case False
  with assms(2) have ex: "token_expired now u"
    and fl: "falsy (linkedin_refresh_token u) \<or> refresh_fails (refresh_result env) u" by auto
  show ?thesis
  proof (cases "falsy (linkedin_refresh_token u)")
    case True
    with assms(1) False ex show ?thesis
      by (simp add: process_post_def post_rows_mark_failed)
  next
    case nf: False
    with fl obtain s' where r: "refresh_token db_commit (refresh_result env) now u s = Inl s'"
      using refresh_fails_Inl by blast
    from refresh_token_Inl [OF r] assms(1) False ex nf r show ?thesis
      by (simp add: process_post_def post_rows_mark_failed)
  qed
qed

text \<open>
  The scenario of the specification: the token is expired and there is no refresh token.
\<close>

theorem token_failure_marks_failed_witness:
  "find (\<lambda>u. id_user u = author_id sample_post) (user_rows expired_session) = Some expired_user \<and>
   token_expired 1000000000 expired_user \<and> falsy (linkedin_refresh_token expired_user) \<and>
   (\<exists>s'. process_post lookup_fault_env 1000000000 sample_post expired_session = Inr s' \<and>
      post_rows s' = [sample_post\<lparr>status := FAILED\<rparr>] \<and>
      filter is_publish_call (trace s') = [])"
proof -
  have f: "find (\<lambda>u. id_user u = author_id sample_post) (user_rows expired_session) = Some expired_user"
    by (simp add: expired_session_def sample_session_def expired_user_def sample_user_def sample_post_def)
  have e: "token_expired 1000000000 expired_user"
    by (simp add: token_expired_def expired_user_def)
  have r: "falsy (linkedin_refresh_token expired_user)"
    by (simp add: falsy_def expired_user_def sample_user_def)
  from token_failure_marks_failed [OF f, of 1000000000 lookup_fault_env] e r
  show ?thesis
    using f by (simp add: expired_session_def sample_session_def)
qed

subsection \<open>Published and Failed\<close>















section \<open>Properties of the analytics sync\<close>

lemma trace_sync_commit: "trace (sync_commit s) = trace s"
  by (simp add: sync_commit_def db_commit_def)

lemma fetch_calls_sync_post: "fetch_calls (sync_post env now uid p s) = Suc (fetch_calls s)"
  by (simp add: sync_post_def Let_def log_def fetch_calls_def is_fetch_call_def trace_sync_commit
      split: fetch_outcome.splits option.splits sum.splits)

lemma fetch_calls_fold_sync_post:
  "fetch_calls (fold (sync_post env now uid) ps s) = fetch_calls s + length ps"
  by (induction ps arbitrary: s) (simp_all add: fetch_calls_sync_post)

lemma fetch_calls_refresh:
  "refresh_token sync_commit refresh now u s = Inl s' \<or>
   refresh_token sync_commit refresh now u s = Inr s' \<Longrightarrow> fetch_calls s' = fetch_calls s"
  by (auto simp: refresh_token_def Let_def fetch_calls_def is_fetch_call_def log_def update_user_def
      trace_sync_commit
      split: refresh_outcome.splits option.splits if_splits)

lemma fetch_calls_sync_user:
  "fetch_calls (sync_user env now g s) \<le> fetch_calls s + length (snd g)"
proof (cases "find (\<lambda>u. id_user u = fst g) (user_rows s)")
  case None
  then show ?thesis by (simp add: sync_user_def)
next
  case (Some u)
  show ?thesis
  proof (cases "refresh_token sync_commit (sync_refresh_result env) now u s")
    case (Inl s')
    then have "fetch_calls s' = fetch_calls s" using fetch_calls_refresh by blast
    with Inl Some show ?thesis
      by (simp add: sync_user_def fetch_calls_fold_sync_post)
  next
    case (Inr s')
    then have "fetch_calls s' = fetch_calls s" using fetch_calls_refresh by blast
    with Inr Some show ?thesis
      by (simp add: sync_user_def fetch_calls_fold_sync_post)
  qed
qed

lemma fetch_calls_fold_sync_user:
  "fetch_calls (fold (sync_user env now) gs s) \<le> fetch_calls s + group_sizes gs"
proof (induction gs arbitrary: s)
  case Nil
  then show ?case by (simp add: group_sizes_def)
next
  case (Cons g gs)
  have "fetch_calls (fold (sync_user env now) (g # gs) s)
          \<le> fetch_calls (sync_user env now g s) + group_sizes gs"
    using Cons.IH by simp
  also have "\<dots> \<le> fetch_calls s + length (snd g) + group_sizes gs"
    using fetch_calls_sync_user [of env now g s] by simp
  finally show ?case by (simp add: group_sizes_def)
qed

lemma group_sizes_add: "group_sizes (add_to_group p g) = Suc (group_sizes g)"
  by (induction p g rule: add_to_group.induct) (simp_all add: group_sizes_def)

lemma group_sizes_fold: "group_sizes (fold add_to_group ps g) = group_sizes g + length ps"
  by (induction ps arbitrary: g) (simp_all add: group_sizes_add)

lemma group_sizes_posts_by_user: "group_sizes (posts_by_user ps) = length ps"
  by (simp add: posts_by_user_def group_sizes_fold) (simp add: group_sizes_def)

text \<open>
  Claim C8. A sync cycle selects at most 20 posts, and over all the user groups together
  it makes at most 20 metric fetches (one per handled post), however many rows satisfy
  the selection filter.
\<close>

theorem sync_cycle_budget:
  "length (posts_to_sync now s) \<le> 20 \<and>
   length (filter is_fetch_call (trace (sync_post_analytics env now s)))
     \<le> length (filter is_fetch_call (trace s)) + 20"
proof -
  have l: "length (posts_to_sync now s) \<le> 20"
    by (simp add: posts_to_sync_def)
  have "fetch_calls (sync_post_analytics env now s)
          \<le> fetch_calls s + group_sizes (posts_by_user (posts_to_sync now s))"
    unfolding sync_post_analytics_def
    using fetch_calls_fold_sync_user [of env now "posts_by_user (posts_to_sync now s)" s]
    by simp
  with l have "fetch_calls (sync_post_analytics env now s) \<le> fetch_calls s + 20"
    by (simp add: group_sizes_posts_by_user)
  with l show ?thesis by (simp add: fetch_calls_def)
qed

lemma posts_to_sync_subset:
  "p \<in> set (posts_to_sync now s) \<Longrightarrow>
     p \<in> set (post_rows s) \<and> sync_filter now (analytics_rows s) p"
  by (auto simp: posts_to_sync_def dest: in_set_takeD)

lemma posts_to_sync_all:
  "length (filter (sync_filter now (analytics_rows s)) (post_rows s)) \<le> 20 \<Longrightarrow>
     posts_to_sync now s = filter (sync_filter now (analytics_rows s)) (post_rows s)"
  by (simp add: posts_to_sync_def)

lemma sync_filter_iff:
  "sync_filter now rows p \<longleftrightarrow>
     status p = PUBLISHED \<and> (\<exists>e. linkedin_post_id p = Some e) \<and>
     (\<exists>t. published_time p = Some t \<and>
        (now - 86400000000 \<le> t \<or>
         (now - 604800000000 \<le> t \<and>
          (\<exists>a l. a \<in> set rows \<and> post_id a = id_post p \<and> last_synced a = Some l \<and>
                 l \<le> now - 86400000000))))"
  by (auto simp: sync_filter_def Let_def at_least_def at_most_def timedelta_days_def us_per_day_def
      list_ex_iff split: option.splits)

text \<open>
  Claim C7, as the specification states it, fails: at day 10 a post published on day 8
  that has no metrics record satisfies the stated policy and is not selected.
\<close>

theorem no_metrics_record_not_selected:
  "spec_needs_sync 864000000000 (analytics_rows no_record_session) two_days_old_post \<and>
   two_days_old_post \<in> set (post_rows no_record_session) \<and>
   analytics_rows no_record_session = [] \<and>
   posts_to_sync 864000000000 no_record_session = []"
  by (simp add: spec_needs_sync_def posts_to_sync_def sync_filter_def no_record_session_def
      two_days_old_post_def at_least_def at_most_def timedelta_days_def us_per_day_def)

text \<open>
  Claim C7, amended. Every selected post is a Published row with an external identifier
  and a publication time within the last 7 days. A selected post that has no metrics
  record was published within the last 24 hours. For a post none of whose metrics records
  has an unset \<open>lastSynced\<close>, being selected implies: published within the last 24 hours, or
  published within the last 7 days with a metrics record whose \<open>lastSynced\<close> is at least 24
  hours old. Conversely, when at most 20 rows pass the query's filter, every Published row
  with an external identifier that was published within the last 24 hours, or within the
  last 7 days with a metrics record whose \<open>lastSynced\<close> is at least 24 hours old, is
  selected.
\<close>

theorem sync_selection:
  "(p \<in> set (posts_to_sync now s) \<longrightarrow>
      p \<in> set (post_rows s) \<and> status p = PUBLISHED \<and> (\<exists>e. linkedin_post_id p = Some e) \<and>
      (\<exists>t. published_time p = Some t \<and> now - 604800000000 \<le> t)) \<and>
   (p \<in> set (posts_to_sync now s) \<longrightarrow>
      (\<forall>a \<in> set (analytics_rows s). post_id a \<noteq> id_post p) \<longrightarrow>
      (\<exists>t. published_time p = Some t \<and> now - 86400000000 \<le> t)) \<and>
   (p \<in> set (posts_to_sync now s) \<longrightarrow>
      (\<forall>a \<in> set (analytics_rows s). post_id a = id_post p \<longrightarrow> last_synced a \<noteq> None) \<longrightarrow>
      (\<exists>t. published_time p = Some t \<and>
         (now - 86400000000 \<le> t \<or>
          (now - 604800000000 \<le> t \<and>
           (\<exists>a l. a \<in> set (analytics_rows s) \<and> post_id a = id_post p \<and>
                  last_synced a = Some l \<and> l \<le> now - 86400000000))))) \<and>
   (length (filter (sync_filter now (analytics_rows s)) (post_rows s)) \<le> 20 \<longrightarrow>
      p \<in> set (post_rows s) \<longrightarrow> status p = PUBLISHED \<longrightarrow> linkedin_post_id p = Some e \<longrightarrow>
      published_time p = Some t \<longrightarrow>
      (now - 86400000000 \<le> t \<or>
       (now - 604800000000 \<le> t \<and>
        (\<exists>a l. a \<in> set (analytics_rows s) \<and> post_id a = id_post p \<and>
               last_synced a = Some l \<and> l \<le> now - 86400000000))) \<longrightarrow>
      p \<in> set (posts_to_sync now s))"
proof -
  have sound: "p \<in> set (post_rows s) \<and> status p = PUBLISHED \<and> (\<exists>e. linkedin_post_id p = Some e) \<and>
      (\<exists>t. published_time p = Some t \<and>
         (now - 86400000000 \<le> t \<or>
          (now - 604800000000 \<le> t \<and>
           (\<exists>a l. a \<in> set (analytics_rows s) \<and> post_id a = id_post p \<and>
                  last_synced a = Some l \<and> l \<le> now - 86400000000))))"
    if "p \<in> set (posts_to_sync now s)"
    using posts_to_sync_subset [OF that] by (simp add: sync_filter_iff)
  have week: "p \<in> set (post_rows s) \<and> status p = PUBLISHED \<and> (\<exists>e. linkedin_post_id p = Some e) \<and>
      (\<exists>t. published_time p = Some t \<and> now - 604800000000 \<le> t)"
    if "p \<in> set (posts_to_sync now s)"
    using sound [OF that] by auto
  have bare: "\<exists>t. published_time p = Some t \<and> now - 86400000000 \<le> t"
    if "p \<in> set (posts_to_sync now s)" "\<forall>a \<in> set (analytics_rows s). post_id a \<noteq> id_post p"
    using sound [OF that(1)] that(2) by auto
  have complete: "p \<in> set (posts_to_sync now s)"
    if few: "length (filter (sync_filter now (analytics_rows s)) (post_rows s)) \<le> 20"
      and row: "p \<in> set (post_rows s)"
      and c: "status p = PUBLISHED" "linkedin_post_id p = Some e" "published_time p = Some t"
        "now - 86400000000 \<le> t \<or>
         (now - 604800000000 \<le> t \<and>
          (\<exists>a l. a \<in> set (analytics_rows s) \<and> post_id a = id_post p \<and>
                 last_synced a = Some l \<and> l \<le> now - 86400000000))"
  proof -
    from c have "sync_filter now (analytics_rows s) p"
      by (simp add: sync_filter_iff)
    with row show ?thesis
      by (simp add: posts_to_sync_all [OF few])
  qed
  from sound week bare complete show ?thesis by blast
qed

text \<open>
  At day 10, the post published on day 8 with a record synced on day 8 is selected: it
  was published within the last 7 days and its one record was synced 48 hours ago.
\<close>

theorem sync_selection_witness:
  "length (filter (sync_filter 864000000000 (analytics_rows synced_once_session))
     (post_rows synced_once_session)) \<le> 20 \<and>
   two_days_old_post \<in> set (post_rows synced_once_session) \<and>
   status two_days_old_post = PUBLISHED \<and>
   linkedin_post_id two_days_old_post = Some ''urn:2'' \<and>
   published_time two_days_old_post = Some 691200000000 \<and>
   (864000000000 :: int) - 604800000000 \<le> 691200000000 \<and>
   synced_row \<in> set (analytics_rows synced_once_session) \<and>
   post_id synced_row = id_post two_days_old_post \<and>
   last_synced synced_row = Some 691200000000 \<and>
   (691200000000 :: int) \<le> 864000000000 - 86400000000 \<and>
   map last_synced (analytics_rows synced_once_session) = [Some 691200000000] \<and>
   two_days_old_post \<in> set (posts_to_sync 864000000000 synced_once_session)"
proof -
  have few: "length (filter (sync_filter 864000000000 (analytics_rows synced_once_session))
     (post_rows synced_once_session)) \<le> 20"
    by (simp add: synced_once_session_def no_record_session_def)
  have row: "two_days_old_post \<in> set (post_rows synced_once_session)"
    by (simp add: synced_once_session_def no_record_session_def)
  have c: "status two_days_old_post = PUBLISHED"
    "linkedin_post_id two_days_old_post = Some ''urn:2''"
    "published_time two_days_old_post = Some 691200000000"
    by (simp_all add: two_days_old_post_def)
  have a: "synced_row \<in> set (analytics_rows synced_once_session)"
    "post_id synced_row = id_post two_days_old_post"
    "last_synced synced_row = Some 691200000000"
    "map last_synced (analytics_rows synced_once_session) = [Some 691200000000]"
    by (simp_all add: synced_once_session_def no_record_session_def synced_row_def
        two_days_old_post_def)
  have old: "(864000000000 :: int) - 86400000000 \<le> 691200000000 \<or>
      ((864000000000 :: int) - 604800000000 \<le> 691200000000 \<and>
       (\<exists>a l. a \<in> set (analytics_rows synced_once_session) \<and>
              post_id a = id_post two_days_old_post \<and> last_synced a = Some l \<and>
              l \<le> 864000000000 - 86400000000))"
    using a by auto
  from sync_selection [of two_days_old_post 864000000000 synced_once_session "''urn:2''" 691200000000]
    few row c old
  have "two_days_old_post \<in> set (posts_to_sync 864000000000 synced_once_session)"
    by blast
  with few row c a show ?thesis by simp
qed

subsection \<open>The engagement rate\<close>






































section \<open>Properties of bulk scheduling\<close>

subsection \<open>Which rows the query returns\<close>

lemma selected_ids_distinct:
  "distinct (map id_post db) \<Longrightarrow> distinct (map id_post (filter P db))"
  by (simp add: distinct_map_filter)

lemma selected_length_card:
  assumes "distinct (map id_post db)"
  shows "length (filter P db) = card (id_post ` {p \<in> set db. P p})"
proof -
  have "length (filter P db) = length (map id_post (filter P db))" by simp
  also have "\<dots> = card (set (map id_post (filter P db)))"
    by (rule distinct_card [symmetric, OF selected_ids_distinct [OF assms]])
  also have "set (map id_post (filter P db)) = id_post ` {p \<in> set db. P p}" by auto
  finally show ?thesis .
qed

lemma duplicate_shortens:
  assumes "distinct (map id_post db)" and "\<not> distinct post_ids"
  shows "length (filter (\<lambda>p. id_post p \<in> set post_ids \<and> author_id p = uid) db) < length post_ids"
proof -
  have "id_post ` {p \<in> set db. id_post p \<in> set post_ids \<and> author_id p = uid} \<subseteq> set post_ids"
    by auto
  then have "card (id_post ` {p \<in> set db. id_post p \<in> set post_ids \<and> author_id p = uid})
               \<le> card (set post_ids)"
    by (simp add: card_mono)
  moreover have "card (set post_ids) < length post_ids"
    using assms(2) card_distinct card_length le_neq_implies_less by blast
  ultimately show ?thesis
    by (simp add: selected_length_card [OF assms(1)])
qed

lemma foreign_id_shortens:
  assumes "distinct (map id_post db)" and "i \<in> set post_ids"
    and "\<not> (\<exists>p \<in> set db. id_post p = i \<and> author_id p = uid)"
  shows "length (filter (\<lambda>p. id_post p \<in> set post_ids \<and> author_id p = uid) db) < length post_ids"
proof -
  have "id_post ` {p \<in> set db. id_post p \<in> set post_ids \<and> author_id p = uid}
          \<subseteq> set post_ids - {i}"
    using assms(3) by auto
  then have "card (id_post ` {p \<in> set db. id_post p \<in> set post_ids \<and> author_id p = uid})
               \<le> card (set post_ids - {i})"
    by (simp add: card_mono)
  moreover have "card (set post_ids - {i}) < card (set post_ids)"
    by (rule card_Diff1_less) (simp_all add: assms(2))
  moreover have "card (set post_ids) \<le> length post_ids"
    by (rule card_length)
  ultimately show ?thesis
    by (simp add: selected_length_card [OF assms(1)])
qed

text \<open>
  Claim C10. Identifiers being unique in the table of posts (the primary key): a request
  whose list of identifiers has a duplicate, or names an identifier that is not a post of
  the requesting account, is rejected whole. \<open>bulk_schedule_posts\<close> returns \<open>None\<close> and
  the endpoint answers 400, the table unchanged, whatever the strategy and the config.
\<close>

theorem duplicate_or_foreign_id_rejected:
  assumes "distinct (map id_post db)"
    and "\<not> distinct post_ids \<or>
         (\<exists>i \<in> set post_ids. \<not> (\<exists>p \<in> set db. id_post p = i \<and> author_id p = uid))"
  shows "bulk_schedule_posts day_offset now db post_ids schedule_type cfg uid = Inr (db, None) \<and>
         bulk_schedule_endpoint day_offset now db post_ids schedule_type cfg uid = (db, HTTP_400)"
proof -
  have "length (filter (\<lambda>p. id_post p \<in> set post_ids \<and> author_id p = uid) db) < length post_ids"
    using assms duplicate_shortens foreign_id_shortens by blast
  then have "bulk_schedule_posts day_offset now db post_ids schedule_type cfg uid = Inr (db, None)"
    by (simp add: bulk_schedule_posts_def Let_def)
  then show ?thesis
    by (simp add: bulk_schedule_endpoint_def)
qed

text \<open>Both posts belong to account 7; the list names post 1 twice.\<close>

theorem duplicate_or_foreign_id_rejected_witness:
  "distinct (map id_post two_drafts) \<and> \<not> distinct [1, 1 :: int] \<and>
   bulk_schedule_posts exact_day_offset monday_10am two_drafts [1, 1] ''optimal_times'' empty_config 7 =
     Inr (two_drafts, None) \<and>
   bulk_schedule_endpoint exact_day_offset monday_10am two_drafts [1, 1] ''optimal_times'' empty_config 7 =
     (two_drafts, HTTP_400)"
proof -
  have d: "distinct (map id_post two_drafts)"
    by (simp add: two_drafts_def draft_post_def)
  have n: "\<not> distinct [1, 1 :: int] \<or>
           (\<exists>i \<in> set [1, 1 :: int]. \<not> (\<exists>p \<in> set two_drafts. id_post p = i \<and> author_id p = 7))"
    by simp
  from duplicate_or_foreign_id_rejected [OF d n] d show ?thesis
    by simp
qed

subsection \<open>The order of the assignments\<close>

lemma cons_ok_Inr: "cons_ok x r = Inr ys \<longleftrightarrow> (\<exists>xs. r = Inr xs \<and> ys = x # xs)"
  by (cases r) (auto simp: cons_ok_def)

lemma assign_slots_ids:
  "assign_slots time_slots end_date current_date k ps = Inr sch \<Longrightarrow>
     map fst sch = take (length sch) (map id_post ps)"
proof (induction ps arbitrary: current_date k sch)
  case Nil
  then show ?case by simp
next
  case (Cons post rest)
  show ?case
  proof (cases "current_date > end_date")
    case True
    with Cons.prems show ?thesis by simp
  next
    case False
    with Cons.prems obtain slot_time next_date next_index xs
      where "assign_slots time_slots end_date next_date next_index rest = Inr xs"
        and "sch = (id_post post, slot_time) # xs"
      by (auto simp: cons_ok_Inr split: if_splits sum.splits prod.splits)
    with Cons.IH [of next_date next_index xs] show ?thesis by simp
  qed
qed

lemma spread_posts_ids:
  "spread_posts day_offset time_slots start_date i ps = Inr sch \<Longrightarrow>
     map fst sch = map id_post ps"
proof (induction ps arbitrary: i sch)
  case Nil
  then show ?case by simp
next
  case (Cons post rest)
  from Cons.prems obtain slot_time xs
    where "spread_posts day_offset time_slots start_date (Suc i) rest = Inr xs"
      and "sch = (id_post post, slot_time) # xs"
    by (auto simp: cons_ok_Inr split: sum.splits list.splits prod.splits)
  with Cons.IH [of "Suc i" xs] show ?case by simp
qed

lemma optimal_day_ids:
  "optimal_day hours now current_date todo = (assigned, todo') \<Longrightarrow>
     map id_post todo = map fst assigned @ map id_post todo'"
proof (induction hours arbitrary: todo assigned todo')
  case Nil
  then show ?case by simp
next
  case (Cons hour hours)
  show ?case
  proof (cases todo)
    case Nil
    with Cons.prems show ?thesis by simp
  next
    case (Cons post rest)
    show ?thesis
    proof (cases "current_date * us_per_day + hour * us_per_hour > now")
      case True
      with Cons.prems Cons obtain xs
        where "optimal_day hours now current_date rest = (xs, todo')"
          and "assigned = (id_post post, current_date * us_per_day + hour * us_per_hour) # xs"
        by (auto simp: Let_def split: prod.splits)
      with Cons.IH [of rest xs todo'] Cons show ?thesis by simp
    next
      case False
      with Cons.prems Cons have "optimal_day hours now current_date todo = (assigned, todo')"
        by (simp add: Let_def)
      then show ?thesis by (rule Cons.IH)
    qed
  qed
qed

lemma optimal_days_ids:
  "optimal_days n now current_date todo = Inr sch \<Longrightarrow>
     map fst sch = take (length sch) (map id_post todo)"
proof (induction n arbitrary: current_date todo sch)
  case 0
  then show ?case by simp
next
  case (Suc n)
  obtain assigned todo' where d: "optimal_day optimal_hours now current_date todo = (assigned, todo')"
    by (cases "optimal_day optimal_hours now current_date todo")
  note ids = optimal_day_ids [OF d]
  from Suc.prems d obtain next_date where nd: "add_date current_date 1 = Inr next_date"
    by (cases "add_date current_date 1") auto
  show ?case
  proof (cases "todo' = []")
    case True
    with Suc.prems d nd have "sch = assigned" by simp
    with ids True show ?thesis by simp
  next
    case False
    with Suc.prems d nd obtain later where l: "optimal_days n now next_date todo' = Inr later"
      and s: "sch = assigned @ later"
      by (auto split: sum.splits)
    from Suc.IH [OF l] have "map fst later = take (length later) (map id_post todo')" .
    with ids s show ?thesis by simp
  qed
qed

lemma evenly_spaced_ids:
  "evenly_spaced day_offset cfg ps = Inr sch \<Longrightarrow>
     map fst sch = take (length sch) (map id_post ps)"
proof -
  assume a: "evenly_spaced day_offset cfg ps = Inr sch"
  then obtain start_date end_date time_slots where
    "assign_slots time_slots end_date start_date 0 ps = Inr sch \<or>
     (\<exists>f. spread_posts f time_slots start_date 0 ps = Inr sch)"
    unfolding evenly_spaced_def Let_def
    by (auto split: sum.splits if_splits)
  then show ?thesis
  proof
    assume "assign_slots time_slots end_date start_date 0 ps = Inr sch"
    then show ?thesis by (rule assign_slots_ids)
  next
    assume "\<exists>f. spread_posts f time_slots start_date 0 ps = Inr sch"
    then obtain f where "spread_posts f time_slots start_date 0 ps = Inr sch" ..
    then have "map fst sch = map id_post ps" by (rule spread_posts_ids)
    then show ?thesis by (metis length_map take_all order_refl)
  qed
qed

lemma specific_days_ids:
  "specific_days cfg now ps = Inr sch \<Longrightarrow>
     map fst sch = take (length sch) (map id_post ps)"
proof -
  assume "specific_days cfg now ps = Inr sch"
  then obtain dates where "sch = zip (map id_post ps) dates"
    unfolding specific_days_def Let_def by (auto split: sum.splits)
  then show ?thesis by (simp add: map_fst_zip_take)
qed

lemma optimal_times_ids:
  "optimal_times cfg now ps = Inr sch \<Longrightarrow>
     map fst sch = take (length sch) (map id_post ps)"
  unfolding optimal_times_def Let_def by (rule optimal_days_ids)

lemma if_chain:
  "(if a then x else if b then y else if c then z else w) = r \<Longrightarrow>
     x = r \<or> y = r \<or> z = r \<or> w = r"
  by (auto split: if_splits)

lemma calculate_schedule_times_ids:
  assumes "calculate_schedule_times day_offset now schedule_type cfg ps = Inr sch"
  shows "map fst sch = take (length sch) (map id_post ps)"
proof -
  from assms have "evenly_spaced day_offset cfg ps = Inr sch \<or>
      specific_days cfg now ps = Inr sch \<or> optimal_times cfg now ps = Inr sch \<or>
      Inr [] = (Inr sch :: py_error + schedule_times)"
    unfolding calculate_schedule_times_def by (rule if_chain)
  then consider (e) "evenly_spaced day_offset cfg ps = Inr sch"
    | (s) "specific_days cfg now ps = Inr sch"
    | (o) "optimal_times cfg now ps = Inr sch"
    | (u) "sch = []"
    by auto
  then show ?thesis
  proof cases
    case e
    then show ?thesis by (rule evenly_spaced_ids)
  next
    case s
    then show ?thesis by (rule specific_days_ids)
  next
    case o
    then show ?thesis by (rule optimal_times_ids)
  next
    case u
    then show ?thesis by simp
  qed
qed

text \<open>
  Claim C4, amended. The assignments follow the order of the rows that the ownership
  query returns (storage order), not the order of the request: the identifiers of the
  result are those of the first rows of the query result, one assignment per row, as many
  rows as there are assignments; each of them is an identifier of the request.
\<close>

theorem assignments_follow_query_order:
  assumes "bulk_schedule_posts day_offset now db post_ids schedule_type cfg uid = Inr (db', Some schedule)"
  shows "map fst schedule =
           take (length schedule)
             (map id_post (filter (\<lambda>p. id_post p \<in> set post_ids \<and> author_id p = uid) db)) \<and>
         set (map fst schedule) \<subseteq> set post_ids"
proof -
  let ?ps = "filter (\<lambda>p. id_post p \<in> set post_ids \<and> author_id p = uid) db"
  from assms have "calculate_schedule_times day_offset now schedule_type cfg ?ps = Inr schedule"
    unfolding bulk_schedule_posts_def Let_def
    by (simp split: if_splits sum.splits)
  then have m: "map fst schedule = take (length schedule) (map id_post ?ps)"
    by (rule calculate_schedule_times_ids)
  have "set (take (length schedule) (map id_post ?ps)) \<subseteq> set (map id_post ?ps)"
    by (rule set_take_subset)
  also have "\<dots> \<subseteq> set post_ids" by auto
  finally have "set (map fst schedule) \<subseteq> set post_ids" using m by simp
  with m show ?thesis by blast
qed

text \<open>
  Claim C4, as the specification states it, fails: the request lists post 2 before post 1
  and the first assignment of the result names post 1, the first row of the table.
\<close>

theorem request_order_not_kept:
  "bulk_schedule_posts exact_day_offset monday_10am two_drafts [2, 1] ''optimal_times'' empty_config 7 =
     Inr ([(draft_post 1 7)\<lparr>scheduled_time := Some 63839707200000000, status := SCHEDULED\<rparr>,
           (draft_post 2 7)\<lparr>scheduled_time := Some 63839725200000000, status := SCHEDULED\<rparr>],
          Some [(1, 63839707200000000), (2, 63839725200000000)])"
  by code_simp

theorem assignments_follow_query_order_witness:
  "bulk_schedule_posts exact_day_offset monday_10am two_drafts [2, 1] ''specific_days''
     (empty_config\<lparr>cfg_days := Some [''Tuesday''], cfg_weeks_ahead := Some 1\<rparr>) 7 =
     Inr ([(draft_post 1 7)\<lparr>scheduled_time := Some 63839782800000000, status := SCHEDULED\<rparr>,
           draft_post 2 7],
          Some [(1, 63839782800000000)]) \<and>
   map fst [(1 :: int, 63839782800000000 :: int)] = [1] \<and>
   take (length [(1 :: int, 63839782800000000 :: int)])
     (map id_post (filter (\<lambda>p. id_post p \<in> set [2, 1] \<and> author_id p = 7) two_drafts)) = [1]"
proof -
  have r: "bulk_schedule_posts exact_day_offset monday_10am two_drafts [2, 1] ''specific_days''
     (empty_config\<lparr>cfg_days := Some [''Tuesday''], cfg_weeks_ahead := Some 1\<rparr>) 7 =
     Inr ([(draft_post 1 7)\<lparr>scheduled_time := Some 63839782800000000, status := SCHEDULED\<rparr>,
           draft_post 2 7],
          Some [(1, 63839782800000000)])"
    by code_simp
  have m: "map fst [(1 :: int, 63839782800000000 :: int)] = [1]" by simp
  have e: "map fst [(1 :: int, 63839782800000000 :: int)] =
      take (length [(1 :: int, 63839782800000000 :: int)])
        (map id_post (filter (\<lambda>p. id_post p \<in> set [2, 1] \<and> author_id p = 7) two_drafts))"
    using assignments_follow_query_order [OF r] by (rule conjunct1)
  have "take (length [(1 :: int, 63839782800000000 :: int)])
      (map id_post (filter (\<lambda>p. id_post p \<in> set [2, 1] \<and> author_id p = 7) two_drafts)) = [1]"
    by (rule trans [OF e [symmetric] m])
  with r m show ?thesis by blast
qed

subsection \<open>Timestamps and the allocation time\<close>

lemma day_candidates_future:
  "day_candidates time_slots now current_date = Inr ts \<Longrightarrow> t \<in> set ts \<Longrightarrow> now < t"
proof (induction time_slots arbitrary: ts)
  case Nil
  then show ?case by simp
next
  case (Cons time_slot rest)
  from Cons.prems(1) obtain slot_time others
    where o: "day_candidates rest now current_date = Inr others"
      and ts: "ts = (if slot_time > now then slot_time # others else others)"
    by (auto split: sum.splits prod.splits)
  from Cons.prems(2) ts have "t \<in> set others \<or> (t = slot_time \<and> slot_time > now)"
    by (auto split: if_splits)
  with Cons.IH [OF o] show ?case by auto
qed

lemma possible_dates_future:
  "possible_dates weekdays time_slots now current_date end_date = Inr ts \<Longrightarrow>
     t \<in> set ts \<Longrightarrow> now < t"
proof (induction weekdays time_slots now current_date end_date arbitrary: ts
    rule: possible_dates.induct)
  case (1 weekdays time_slots now current_date end_date)
  show ?case
  proof (cases "current_date \<le> end_date")
    case False
    with "1.prems" show ?thesis
      by (simp add: possible_dates.simps [of weekdays time_slots now current_date end_date])
  next
    case True
    with "1.prems"(1) obtain today later
      where td: "(if weekday current_date \<in> set weekdays
                  then day_candidates time_slots now current_date else Inr []) = Inr today"
        and nov: "\<not> max_date \<le> current_date + 1"
        and lt: "possible_dates weekdays time_slots now (current_date + 1) end_date = Inr later"
        and ts: "ts = today @ later"
      by (subst (asm) possible_dates.simps) (auto split: sum.splits if_splits)
    from "1.prems"(2) ts consider "t \<in> set today" | "t \<in> set later" by auto
    then show ?thesis
    proof cases
      case 1
      with td show ?thesis
        by (auto split: if_splits dest: day_candidates_future)
    next
      case 2
      from "1.IH" [OF True td nov lt 2] show ?thesis .
    qed
  qed
qed

lemma specific_days_future:
  "specific_days cfg now ps = Inr sch \<Longrightarrow> (i, t) \<in> set sch \<Longrightarrow> now < t"
proof -
  assume "specific_days cfg now ps = Inr sch" and m: "(i, t) \<in> set sch"
  then obtain weekdays time_slots current_date end_date dates
    where pd: "possible_dates weekdays time_slots now current_date end_date = Inr dates"
      and "sch = zip (map id_post ps) dates"
    unfolding specific_days_def Let_def by (auto split: sum.splits)
  with m have "t \<in> set dates" by (auto dest: set_zip_rightD)
  with pd show ?thesis by (rule possible_dates_future)
qed

lemma optimal_day_future:
  "optimal_day hours now current_date todo = (assigned, todo') \<Longrightarrow>
     (i, t) \<in> set assigned \<Longrightarrow> now < t"
proof (induction hours arbitrary: todo assigned)
  case Nil
  then show ?case by simp
next
  case (Cons hour hours)
  show ?case
  proof (cases todo)
    case Nil
    with Cons.prems show ?thesis by simp
  next
    case (Cons post rest)
    show ?thesis
    proof (cases "current_date * us_per_day + hour * us_per_hour > now")
      case True
      with Cons.prems(1) Cons obtain xs
        where x: "optimal_day hours now current_date rest = (xs, todo')"
          and a: "assigned = (id_post post, current_date * us_per_day + hour * us_per_hour) # xs"
        by (auto simp: Let_def split: prod.splits)
      from Cons.prems(2) a have
        "t = current_date * us_per_day + hour * us_per_hour \<or> (i, t) \<in> set xs" by auto
      with True Cons.IH [OF x] show ?thesis by auto
    next
      case False
      with Cons.prems(1) Cons have "optimal_day hours now current_date todo = (assigned, todo')"
        by (simp add: Let_def)
      from Cons.IH [OF this Cons.prems(2)] show ?thesis .
    qed
  qed
qed

lemma optimal_days_future:
  "optimal_days n now current_date todo = Inr sch \<Longrightarrow> (i, t) \<in> set sch \<Longrightarrow> now < t"
proof (induction n arbitrary: current_date todo sch)
  case 0
  then show ?case by simp
next
  case (Suc n)
  obtain assigned todo' where d: "optimal_day optimal_hours now current_date todo = (assigned, todo')"
    by (cases "optimal_day optimal_hours now current_date todo")
  from Suc.prems(1) d obtain next_date where nd: "add_date current_date 1 = Inr next_date"
    by (cases "add_date current_date 1") auto
  show ?case
  proof (cases "todo' = []")
    case True
    with Suc.prems d nd have "(i, t) \<in> set assigned" by simp
    with d show ?thesis by (rule optimal_day_future)
  next
    case False
    with Suc.prems(1) d nd obtain later where l: "optimal_days n now next_date todo' = Inr later"
      and s: "sch = assigned @ later"
      by (auto split: sum.splits)
    from Suc.prems(2) s consider "(i, t) \<in> set assigned" | "(i, t) \<in> set later" by auto
    then show ?thesis
    proof cases
      case 1
      with d show ?thesis by (rule optimal_day_future)
    next
      case 2
      with l show ?thesis by (rule Suc.IH)
    qed
  qed
qed

lemma optimal_times_future:
  "optimal_times cfg now ps = Inr sch \<Longrightarrow> (i, t) \<in> set sch \<Longrightarrow> now < t"
  unfolding optimal_times_def Let_def by (rule optimal_days_future)

lemma bulk_schedule_posts_Some:
  "bulk_schedule_posts day_offset now db post_ids schedule_type cfg uid = Inr (db', Some schedule) \<Longrightarrow>
     calculate_schedule_times day_offset now schedule_type cfg
       (filter (\<lambda>p. id_post p \<in> set post_ids \<and> author_id p = uid) db) = Inr schedule"
  unfolding bulk_schedule_posts_def Let_def
  by (simp split: if_splits sum.splits)

text \<open>
  Claim C2, as the specification states it, fails for \<open>evenly_spaced\<close>: on 2024-01-01 at
  10:00 a request with start and end date on day 738000 (in 2021) is given that day at
  09:00, which is not after the allocation time.
\<close>

theorem evenly_spaced_schedules_into_past:
  "bulk_schedule_posts exact_day_offset monday_10am two_drafts [1] ''evenly_spaced''
     (empty_config\<lparr>cfg_start_date := IsoDate 63763200000000000,
                    cfg_end_date := IsoDate 63763200000000000\<rparr>) 7 =
     Inr ([(draft_post 1 7)\<lparr>scheduled_time := Some 63763232400000000, status := SCHEDULED\<rparr>,
           draft_post 2 7],
          Some [(1, 63763232400000000)]) \<and>
   \<not> monday_10am < 63763232400000000"
  by code_simp

text \<open>
  Claim C2, amended. For the strategies \<open>specific_days\<close> and \<open>optimal_times\<close>, whatever
  the batch and the config, every timestamp of a returned schedule is strictly greater
  than the allocation time \<open>now\<close>. (\<open>evenly_spaced\<close> takes its dates from the request and
  does not compare them with \<open>now\<close>.)
\<close>

theorem generated_times_after_now:
  assumes "schedule_type = ''specific_days'' \<or> schedule_type = ''optimal_times''"
    and "bulk_schedule_posts day_offset now db post_ids schedule_type cfg uid = Inr (db', Some schedule)"
    and "(i, t) \<in> set schedule"
  shows "now < t"
proof -
  let ?ps = "filter (\<lambda>p. id_post p \<in> set post_ids \<and> author_id p = uid) db"
  note c = bulk_schedule_posts_Some [OF assms(2)]
  from assms(1) show ?thesis
  proof
    assume "schedule_type = ''specific_days''"
    with c have "specific_days cfg now ?ps = Inr schedule"
      by (simp add: calculate_schedule_times_def)
    then show ?thesis using assms(3) by (rule specific_days_future)
  next
    assume "schedule_type = ''optimal_times''"
    with c have "optimal_times cfg now ?ps = Inr schedule"
      by (simp add: calculate_schedule_times_def)
    then show ?thesis using assms(3) by (rule optimal_times_future)
  qed
qed

theorem generated_times_after_now_witness:
  "bulk_schedule_posts exact_day_offset monday_10am two_drafts [1, 2] ''optimal_times'' empty_config 7 =
     Inr ([(draft_post 1 7)\<lparr>scheduled_time := Some 63839707200000000, status := SCHEDULED\<rparr>,
           (draft_post 2 7)\<lparr>scheduled_time := Some 63839725200000000, status := SCHEDULED\<rparr>],
          Some [(1, 63839707200000000), (2, 63839725200000000)]) \<and>
   (2, 63839725200000000) \<in> set [(1 :: int, 63839707200000000 :: int), (2, 63839725200000000)] \<and>
   monday_10am < 63839725200000000"
proof -
  have r: "bulk_schedule_posts exact_day_offset monday_10am two_drafts [1, 2] ''optimal_times'' empty_config 7 =
     Inr ([(draft_post 1 7)\<lparr>scheduled_time := Some 63839707200000000, status := SCHEDULED\<rparr>,
           (draft_post 2 7)\<lparr>scheduled_time := Some 63839725200000000, status := SCHEDULED\<rparr>],
          Some [(1, 63839707200000000), (2, 63839725200000000)])"
    by code_simp
  have m: "(2, 63839725200000000) \<in> set [(1 :: int, 63839707200000000 :: int), (2, 63839725200000000)]"
    by simp
  have t: "''optimal_times'' = ''specific_days'' \<or> ''optimal_times'' = ''optimal_times''"
    by simp
  from generated_times_after_now [OF t r m] r m show ?thesis
    by blast
qed

subsection \<open>Requests the allocator cannot serve\<close>

lemma day_map_unknown: "d \<notin> set weekday_names \<Longrightarrow> day_map d = None"
  by (simp add: day_map_def weekday_names_def)

lemma map_filter_known_days:
  "List.map_filter day_map (filter (\<lambda>d. d \<in> set weekday_names) ds) = List.map_filter day_map ds"
proof (induction ds)
  case Nil
  then show ?case by simp
next
  case (Cons d ds)
  show ?case
  proof (cases "d \<in> set weekday_names")
    case True
    with Cons.IH show ?thesis by (simp split: option.splits)
  next
    case False
    with Cons.IH day_map_unknown [OF False] show ?thesis by simp
  qed
qed

lemma specific_days_ignores_unknown:
  "specific_days (cfg\<lparr>cfg_days := Some (filter (\<lambda>d. d \<in> set weekday_names) ds)\<rparr>) now ps =
     specific_days (cfg\<lparr>cfg_days := Some ds\<rparr>) now ps"
  by (simp add: specific_days_def map_filter_known_days cong: sum.case_cong)

lemma unknown_tag_no_times:
  "schedule_type \<noteq> ''evenly_spaced'' \<Longrightarrow> schedule_type \<noteq> ''specific_days'' \<Longrightarrow>
     schedule_type \<noteq> ''optimal_times'' \<Longrightarrow>
     calculate_schedule_times day_offset now schedule_type cfg ps = Inr []"
  by (simp only: calculate_schedule_times_def if_False)

text \<open>
  Claim C3, as the specification states it, fails. A request with the unknown tag
  \<open>weekly\<close> is answered 200 with an empty schedule; a \<open>specific_days\<close> request whose days
  are \<open>Funday\<close> and \<open>Tuesday\<close> is answered 200 with an assignment on the next Tuesday, and
  the post becomes Scheduled.
\<close>

theorem invalid_request_answered_normally:
  "bulk_schedule_endpoint exact_day_offset monday_10am two_drafts [1] ''weekly'' empty_config 7 =
     (two_drafts, HTTP_200 []) \<and>
   bulk_schedule_endpoint exact_day_offset monday_10am two_drafts [1] ''specific_days''
     (empty_config\<lparr>cfg_days := Some [''Funday'', ''Tuesday''], cfg_weeks_ahead := Some 1\<rparr>) 7 =
     ([(draft_post 1 7)\<lparr>scheduled_time := Some 63839782800000000, status := SCHEDULED\<rparr>,
       draft_post 2 7],
      HTTP_200 [(1, 63839782800000000)])"
  by code_simp

text \<open>
  Claim C3, amended. A request whose strategy tag is none of the three recognized tags
  changes no post. In a \<open>specific_days\<close> config a day name outside the seven weekday
  names (\<open>weekday_names\<close>) is ignored: the request is answered as the request without
  those names is. When
  the allocator raises (a date that is missing or unreadable, a time slot that cannot be
  read, a date beyond year 9999), the exception reaches the caller unhandled and no post
  is changed.
\<close>

theorem invalid_request_handling:
  "(schedule_type \<noteq> ''evenly_spaced'' \<and> schedule_type \<noteq> ''specific_days'' \<and>
    schedule_type \<noteq> ''optimal_times'' \<longrightarrow>
      fst (bulk_schedule_endpoint day_offset now db post_ids schedule_type cfg uid) = db) \<and>
   bulk_schedule_endpoint day_offset now db post_ids ''specific_days'' (cfg\<lparr>cfg_days := Some ds\<rparr>) uid =
     bulk_schedule_endpoint day_offset now db post_ids ''specific_days''
       (cfg\<lparr>cfg_days := Some (filter (\<lambda>d. d \<in> set weekday_names) ds)\<rparr>) uid \<and>
   (bulk_schedule_posts day_offset now db post_ids schedule_type cfg uid = Inl e \<longrightarrow>
      bulk_schedule_endpoint day_offset now db post_ids schedule_type cfg uid = (db, Unhandled e))"
proof -
  have unknown: "fst (bulk_schedule_endpoint day_offset now db post_ids schedule_type cfg uid) = db"
    if "schedule_type \<noteq> ''evenly_spaced''" "schedule_type \<noteq> ''specific_days''"
      "schedule_type \<noteq> ''optimal_times''"
    unfolding bulk_schedule_endpoint_def bulk_schedule_posts_def Let_def
      unknown_tag_no_times [OF that]
    by simp
  have days: "bulk_schedule_endpoint day_offset now db post_ids ''specific_days''
       (cfg\<lparr>cfg_days := Some ds\<rparr>) uid =
     bulk_schedule_endpoint day_offset now db post_ids ''specific_days''
       (cfg\<lparr>cfg_days := Some (filter (\<lambda>d. d \<in> set weekday_names) ds)\<rparr>) uid"
    unfolding bulk_schedule_endpoint_def bulk_schedule_posts_def Let_def
    by (simp add: calculate_schedule_times_def specific_days_ignores_unknown)
  have raised: "bulk_schedule_endpoint day_offset now db post_ids schedule_type cfg uid = (db, Unhandled e)"
    if "bulk_schedule_posts day_offset now db post_ids schedule_type cfg uid = Inl e"
    using that by (simp add: bulk_schedule_endpoint_def)
  from unknown days raised show ?thesis by blast
qed

theorem invalid_request_handling_witness:
  "''weekly'' \<noteq> ''evenly_spaced'' \<and> ''weekly'' \<noteq> ''specific_days'' \<and>
   ''weekly'' \<noteq> ''optimal_times'' \<and>
   fst (bulk_schedule_endpoint exact_day_offset monday_10am two_drafts [1] ''weekly'' empty_config 7) =
     two_drafts \<and>
   bulk_schedule_posts exact_day_offset monday_10am two_drafts [1] ''evenly_spaced'' empty_config 7 =
     Inl TypeError \<and>
   bulk_schedule_endpoint exact_day_offset monday_10am two_drafts [1] ''evenly_spaced'' empty_config 7 =
     (two_drafts, Unhandled TypeError)"
proof -
  have w: "''weekly'' \<noteq> ''evenly_spaced'' \<and> ''weekly'' \<noteq> ''specific_days'' \<and>
      ''weekly'' \<noteq> ''optimal_times''"
    by simp
  have r: "bulk_schedule_posts exact_day_offset monday_10am two_drafts [1] ''evenly_spaced'' empty_config 7 =
      Inl TypeError"
    by code_simp
  note h = invalid_request_handling [of "''weekly''" exact_day_offset monday_10am two_drafts "[1]"
      empty_config 7 "[]" TypeError]
  note k = invalid_request_handling [of "''evenly_spaced''" exact_day_offset monday_10am two_drafts
      "[1]" empty_config 7 "[]" TypeError]
  from h w have "fst (bulk_schedule_endpoint exact_day_offset monday_10am two_drafts [1] ''weekly''
      empty_config 7) = two_drafts"
    by blast
  moreover from k r have "bulk_schedule_endpoint exact_day_offset monday_10am two_drafts [1]
      ''evenly_spaced'' empty_config 7 = (two_drafts, Unhandled TypeError)"
    by blast
  ultimately show ?thesis using w r by blast
qed

end
